theory Spec2Isabelle
  imports Main "HOL-Library.Char_ord" "HOL-Library.List_Lexorder" "HOL-Library.Sublist"
begin

section \<open>JsonCpp values, as the two programs use them\<close>

text \<open>
  Both programs keep the store in a \<^verbatim>\<open>Json::Value\<close>. A value is null, a boolean, an
  integer, a string, an array or an object. An object is a \<^verbatim>\<open>std::map\<close> from member
  names to values, so its members are held here in the order of their names, one entry per
  name. Real-valued numbers are left out: the programs could only see one through
  \<^verbatim>\<open>asString()\<close>, whose text for a double is floating-point formatting.
\<close>

datatype json =
    JNull
  | JBool bool
  | JInt int
  | JString string
  | JArray "json list"
  | JObject "(string \<times> json) list"

text \<open>
  JsonCpp reports a misuse of a value (a member of a non-object, an append to a non-array, a
  string conversion of an array) by throwing \<^verbatim>\<open>Json::LogicError\<close>, and a document that
  its reader rejects by throwing \<^verbatim>\<open>Json::RuntimeError\<close>. Neither program catches
  anything, so a thrown exception ends the process.
\<close>

datatype exn = RuntimeError | LogicError

definition and_then :: "exn + 'a \<Rightarrow> ('a \<Rightarrow> exn + 'b) \<Rightarrow> exn + 'b" where
  "and_then m f = (case m of Inl e \<Rightarrow> Inl e | Inr x \<Rightarrow> f x)"

text \<open>\<^verbatim>\<open>Value::find\<close>: the member of that name, of an object or of null.\<close>

fun find_member :: "string \<Rightarrow> json \<Rightarrow> exn + json option" where
  "find_member k JNull = Inr None"
| "find_member k (JObject kvs) = Inr (map_of kvs k)"
| "find_member k _ = Inl LogicError"

definition isMember :: "string \<Rightarrow> json \<Rightarrow> exn + bool" where
  "isMember k v = and_then (find_member k v) (\<lambda>m. Inr (m \<noteq> None))"

text \<open>\<^verbatim>\<open>operator[]\<close> on a const value: the member, or null when there is none.\<close>

definition index_const :: "string \<Rightarrow> json \<Rightarrow> exn + json" where
  "index_const k v =
     and_then (find_member k v) (\<lambda>m. Inr (case m of None \<Rightarrow> JNull | Some x \<Rightarrow> x))"

text \<open>Storing a member into the map of an object: in place when the name is there, at its
  place in the order of names otherwise.\<close>

fun put :: "string \<Rightarrow> json \<Rightarrow> (string \<times> json) list \<Rightarrow> (string \<times> json) list" where
  "put k v [] = [(k, v)]"
| "put k v ((k', v') # kvs) =
     (if k = k' then (k, v) # kvs
      else if k < k' then (k, v) # (k', v') # kvs
      else (k', v') # put k v kvs)"

text \<open>
  \<^verbatim>\<open>operator[]\<close> on a non-const value gives a reference to the member, which null turns
  into an object for and which is created as null when missing. The programs use the
  reference at once, to assign to it or to append to it: \<open>modify_member k f v\<close> is \<open>v\<close> after
  \<open>f\<close> has run on its member \<open>k\<close>.
\<close>

fun modify_member :: "string \<Rightarrow> (json \<Rightarrow> exn + json) \<Rightarrow> json \<Rightarrow> exn + json" where
  "modify_member k f JNull = and_then (f JNull) (\<lambda>x. Inr (JObject [(k, x)]))"
| "modify_member k f (JObject kvs) =
     and_then (f (case map_of kvs k of None \<Rightarrow> JNull | Some x \<Rightarrow> x))
       (\<lambda>x. Inr (JObject (put k x kvs)))"
| "modify_member k f _ = Inl LogicError"

definition assign :: "json \<Rightarrow> json \<Rightarrow> exn + json" where
  "assign x old = Inr x"

text \<open>\<^verbatim>\<open>Value::append\<close>: null becomes a one-element array, an array grows at its end.\<close>

fun append_value :: "json \<Rightarrow> json \<Rightarrow> exn + json" where
  "append_value x JNull = Inr (JArray [x])"
| "append_value x (JArray xs) = Inr (JArray (xs @ [x]))"
| "append_value x _ = Inl LogicError"

text \<open>What a range-based \<^verbatim>\<open>for\<close> visits: the elements of an array, the member values of
  an object, nothing for any other value.\<close>

fun elements :: "json \<Rightarrow> json list" where
  "elements (JArray xs) = xs"
| "elements (JObject kvs) = map snd kvs"
| "elements _ = []"

fun digits :: "nat \<Rightarrow> string" where
  "digits n =
     (if n < 10 then [''0123456789'' ! n]
      else digits (n div 10) @ [''0123456789'' ! (n mod 10)])"

declare digits.simps [simp del]

definition valueToString :: "int \<Rightarrow> string" where
  "valueToString i = (if i < 0 then CHR ''-'' # digits (nat (- i)) else digits (nat i))"

text \<open>\<^verbatim>\<open>Value::asString\<close>.\<close>

fun asString :: "json \<Rightarrow> exn + string" where
  "asString JNull = Inr []"
| "asString (JString s) = Inr s"
| "asString (JBool b) = Inr (if b then ''true'' else ''false'')"
| "asString (JInt i) = Inr (valueToString i)"
| "asString _ = Inl LogicError"

text \<open>\<^verbatim>\<open>user[k].asString()\<close> on a const element of the store.\<close>

definition string_field :: "string \<Rightarrow> json \<Rightarrow> exn + string" where
  "string_field k user = and_then (index_const k user) asString"

section \<open>The world of one process: the store file and the standard streams\<close>

text \<open>
  The file \<^verbatim>\<open>users.json\<close> is missing, or holds bytes that the JsonCpp reader rejects, or
  holds a JSON document. A document is kept as the value it denotes: the text that
  \<^verbatim>\<open>toStyledString()\<close> writes is taken to be read back as the value written. \<open>writable\<close>
  says whether \<^verbatim>\<open>std::ofstream("users.json")\<close> can open the file.
\<close>

datatype store_file = Absent | Malformed | Document json

record world =
  users_json :: store_file
  writable :: bool
  stdin :: string
  stdout :: string

text \<open>
  \<^verbatim>\<open>std::ifstream("users.json") >> db\<close>. The stream is opened for reading and the file
  stays as it is. A file that cannot be opened delivers no bytes, and the reader rejects an
  empty input as it rejects any other text that is not a JSON value: the operator throws.
\<close>

definition read_json :: "world \<Rightarrow> (exn + json) \<times> world" where
  "read_json w =
     (case users_json w of
        Absent \<Rightarrow> (Inl RuntimeError, w)
      | Malformed \<Rightarrow> (Inl RuntimeError, w)
      | Document d \<Rightarrow> (Inr d, w))"

text \<open>
  \<^verbatim>\<open>std::ofstream("users.json") << db.toStyledString()\<close>. When the file cannot be opened
  the stream is in a failed state, the insertion does nothing and nothing is thrown.
\<close>

definition write_json :: "json \<Rightarrow> world \<Rightarrow> world" where
  "write_json d w = (if writable w then w\<lparr>users_json := Document d\<rparr> else w)"

definition isspace :: "char \<Rightarrow> bool" where
  "isspace c = (c \<in> set [CHR '' '', CHR 0x09, CHR 0x0A, CHR 0x0B, CHR 0x0C, CHR 0x0D])"

text \<open>\<^verbatim>\<open>std::cin >> s\<close> into an empty string: white space is skipped, then the characters up
  to the next white space are taken. At the end of the input the string stays empty.\<close>

definition cin_string :: "world \<Rightarrow> string \<times> world" where
  "cin_string w =
     (let s = dropWhile isspace (stdin w)
      in (takeWhile (\<lambda>c. \<not> isspace c) s, w\<lparr>stdin := dropWhile (\<lambda>c. \<not> isspace c) s\<rparr>))"

definition cout :: "string \<Rightarrow> world \<Rightarrow> world" where
  "cout s w = w\<lparr>stdout := stdout w @ s\<rparr>"

text \<open>How a process ends: \<^verbatim>\<open>main\<close> returns a code, or an exception nobody catches
  terminates it. What a terminated process had printed is not modelled.\<close>

datatype status = Returned int | Aborted exn

section \<open>Authenticate (KRISO.HEQIMI2.cpp)\<close>

definition hash_pass :: "string \<Rightarrow> string" where
  "hash_pass p = ''HASH_'' @ p"

text \<open>Lines 10 to 12: the store is read, and a document without \<^verbatim>\<open>users\<close> ends the
  process with code 1.\<close>

definition load_authenticate :: "world \<Rightarrow> (status + json) \<times> world" where
  "load_authenticate w =
     (case read_json w of
        (Inl e, w') \<Rightarrow> (Inl (Aborted e), w')
      | (Inr db, w') \<Rightarrow>
          (case isMember ''users'' db of
             Inl e \<Rightarrow> (Inl (Aborted e), w')
           | Inr False \<Rightarrow> (Inl (Returned 1), w')
           | Inr True \<Rightarrow> (Inr db, w')))"

text \<open>Lines 17 to 30: the loop over the users and what follows it.\<close>

fun scan :: "string \<Rightarrow> string \<Rightarrow> json list \<Rightarrow> world \<Rightarrow> status \<times> world" where
  "scan u p [] w = (Returned 1, cout ''User not found'' w)"
| "scan u p (user # rest) w =
     (case string_field ''username'' user of
        Inl e \<Rightarrow> (Aborted e, w)
      | Inr name \<Rightarrow>
          if name = u then
            (case string_field ''password_hash'' user of
               Inl e \<Rightarrow> (Aborted e, w)
             | Inr h \<Rightarrow>
                 if h = hash_pass p then
                   (case string_field ''role'' user of
                      Inl e \<Rightarrow> (Aborted e, w)
                    | Inr role \<Rightarrow>
                        (Returned 0, cout (''Logged in as '' @ u @ '' ('' @ role @ '')'') w))
                 else (Returned 1, cout ''Incorrect password'' w))
          else scan u p rest w)"

definition authenticate_input :: "world \<Rightarrow> (string \<times> string) \<times> world" where
  "authenticate_input w =
     (case cin_string w of (u, w1) \<Rightarrow> case cin_string w1 of (p, w2) \<Rightarrow> ((u, p), w2))"

text \<open>The whole of \<^verbatim>\<open>main\<close>. Past line 12 the store is an object that has the member
  \<^verbatim>\<open>users\<close>, so \<^verbatim>\<open>db["users"]\<close> in line 17 reads that member and creates nothing.\<close>

definition authenticate_main :: "world \<Rightarrow> status \<times> world" where
  "authenticate_main w =
     (case load_authenticate w of
        (Inl st, w0) \<Rightarrow> (st, w0)
      | (Inr db, w0) \<Rightarrow>
          (case authenticate_input w0 of
             ((u, p), w2) \<Rightarrow>
               (case index_const ''users'' db of
                  Inl e \<Rightarrow> (Aborted e, w2)
                | Inr us \<Rightarrow> scan u p (elements us) w2)))"

section \<open>Register (KRISTO.HEQIMI.cpp)\<close>

text \<open>Lines 6 to 8: the store is read, and a document without \<^verbatim>\<open>users\<close> gets an empty
  array under that name.\<close>

definition load_register :: "world \<Rightarrow> (exn + json) \<times> world" where
  "load_register w =
     (case read_json w of
        (Inl e, w') \<Rightarrow> (Inl e, w')
      | (Inr db, w') \<Rightarrow>
          (case isMember ''users'' db of
             Inl e \<Rightarrow> (Inl e, w')
           | Inr False \<Rightarrow> (modify_member ''users'' (assign (JArray [])) db, w')
           | Inr True \<Rightarrow> (Inr db, w')))"

definition register_input :: "world \<Rightarrow> (string \<times> string \<times> string) \<times> world" where
  "register_input w =
     (case cin_string w of (u, w1) \<Rightarrow>
      case cin_string w1 of (p, w2) \<Rightarrow>
      case cin_string w2 of (r, w3) \<Rightarrow> ((u, p, r), w3))"

text \<open>Lines 13 to 16: the record of the new user, built member by member from null.\<close>

definition new_user :: "string \<Rightarrow> string \<Rightarrow> string \<Rightarrow> exn + json" where
  "new_user u p r =
     and_then (modify_member ''username'' (assign (JString u)) JNull) (\<lambda>user1.
     and_then (modify_member ''password_hash'' (assign (JString (''HASH_'' @ p))) user1) (\<lambda>user2.
     modify_member ''role'' (assign (JString r)) user2))"

text \<open>Line 18.\<close>

definition append_user :: "string \<Rightarrow> string \<Rightarrow> string \<Rightarrow> json \<Rightarrow> exn + json" where
  "append_user u p r db =
     and_then (new_user u p r) (\<lambda>user. modify_member ''users'' (append_value user) db)"

text \<open>The whole of \<^verbatim>\<open>main\<close>, which ends without a \<^verbatim>\<open>return\<close> and so returns 0.\<close>

definition register_main :: "world \<Rightarrow> status \<times> world" where
  "register_main w =
     (case load_register w of
        (Inl e, w0) \<Rightarrow> (Aborted e, w0)
      | (Inr db, w0) \<Rightarrow>
          (case register_input w0 of
             ((u, p, r), w3) \<Rightarrow>
               (case append_user u p r db of
                  Inl e \<Rightarrow> (Aborted e, w3)
                | Inr db' \<Rightarrow> (Returned 0, write_json db' w3))))"

section \<open>Example processes\<close>

text \<open>A process started on a store file with a line of input: the file can be written and
  nothing has been printed yet.\<close>

definition process :: "store_file \<Rightarrow> string \<Rightarrow> world" where
  "process f s = \<lparr>users_json = f, writable = True, stdin = s, stdout = []\<rparr>"

text \<open>The next process on the file that a run has left behind.\<close>

definition next_process :: "world \<Rightarrow> string \<Rightarrow> world" where
  "next_process w s = w\<lparr>stdin := s, stdout := []\<rparr>"

text \<open>The JSON of one record, and of a store that has \<^verbatim>\<open>users\<close> as its only member.\<close>

definition record_json :: "string \<Rightarrow> string \<Rightarrow> string \<Rightarrow> json" where
  "record_json u h r =
     JObject [(''password_hash'', JString h), (''role'', JString r), (''username'', JString u)]"

definition store_json :: "json list \<Rightarrow> json" where
  "store_json xs = JObject [(''users'', JArray xs)]"

text \<open>The store of the first-match example: two records share the name \<^verbatim>\<open>dup\<close>.\<close>

definition dup_store :: json where
  "dup_store =
     store_json [record_json ''bob'' ''HASH_pw1'' ''user'',
                 record_json ''dup'' ''HASH_one'' ''first'',
                 record_json ''dup'' ''HASH_two'' ''second'']"

text \<open>A record whose \<^verbatim>\<open>password_hash\<close> reads as a string that starts with \<^verbatim>\<open>HASH_\<close>.\<close>

definition hash_prefixed :: "json \<Rightarrow> bool" where
  "hash_prefixed user =
     (case string_field ''password_hash'' user of
        Inl e \<Rightarrow> False
      | Inr h \<Rightarrow> prefix ''HASH_'' h)"

section \<open>Basic facts\<close>

lemmas run_defs =
  register_main_def load_register_def register_input_def append_user_def new_user_def
  authenticate_main_def load_authenticate_def authenticate_input_def
  read_json_def write_json_def cin_string_def isspace_def cout_def
  isMember_def index_const_def string_field_def and_then_def assign_def hash_pass_def Let_def

lemma new_user_eq: "new_user u p r = Inr (record_json u (hash_pass p) r)"
  by (simp add: new_user_def and_then_def assign_def record_json_def hash_pass_def)

lemma record_json_fields:
  "string_field ''username'' (record_json u h r) = Inr u"
  "string_field ''password_hash'' (record_json u h r) = Inr h"
  "string_field ''role'' (record_json u h r) = Inr r"
  by (simp_all add: record_json_def string_field_def index_const_def and_then_def)

lemma cout_inject: "cout s w = cout t w \<longleftrightarrow> s = t"
proof
  assume "cout s w = cout t w"
  then have "stdout (cout s w) = stdout (cout t w)" by simp
  then show "s = t" by (simp add: cout_def)
qed simp

lemma map_of_put: "map_of (put k v kvs) k' = (if k' = k then Some v else map_of kvs k')"
  by (induction kvs) auto

lemma cin_string_keeps:
  "users_json (snd (cin_string w)) = users_json w"
  "writable (snd (cin_string w)) = writable w"
  "stdout (snd (cin_string w)) = stdout w"
  by (simp_all add: cin_string_def Let_def)

lemma register_input_keeps:
  "users_json (snd (register_input w)) = users_json w"
  "writable (snd (register_input w)) = writable w"
  "stdout (snd (register_input w)) = stdout w"
  using cin_string_keeps
  by (auto simp add: register_input_def split: prod.splits) (metis snd_conv)+

lemma authenticate_input_keeps:
  "users_json (snd (authenticate_input w)) = users_json w"
  "writable (snd (authenticate_input w)) = writable w"
  "stdout (snd (authenticate_input w)) = stdout w"
  using cin_string_keeps
  by (auto simp add: authenticate_input_def split: prod.splits) (metis snd_conv)+

text \<open>Both loaders, as functions of the file alone.\<close>

lemma load_register_file:
  "load_register w =
     (case users_json w of
        Document d \<Rightarrow>
          (case isMember ''users'' d of
             Inl e \<Rightarrow> Inl e
           | Inr False \<Rightarrow> modify_member ''users'' (assign (JArray [])) d
           | Inr True \<Rightarrow> Inr d)
      | _ \<Rightarrow> Inl RuntimeError, w)"
  by (simp add: load_register_def read_json_def split: store_file.splits sum.splits bool.splits)

lemma load_authenticate_file:
  "load_authenticate w =
     (case users_json w of
        Document d \<Rightarrow>
          (case isMember ''users'' d of
             Inl e \<Rightarrow> Inl (Aborted e)
           | Inr False \<Rightarrow> Inl (Returned 1)
           | Inr True \<Rightarrow> Inr d)
      | _ \<Rightarrow> Inl (Aborted RuntimeError), w)"
  by (simp add: load_authenticate_def read_json_def
      split: store_file.splits sum.splits bool.splits)

lemma isMember_cases:
  "isMember k d = Inr True \<longleftrightarrow> (\<exists>kvs x. d = JObject kvs \<and> map_of kvs k = Some x)"
  "isMember k d = Inr False \<longleftrightarrow> d = JNull \<or> (\<exists>kvs. d = JObject kvs \<and> map_of kvs k = None)"
  by (cases d; auto simp add: isMember_def and_then_def)+

lemma load_register_written:
  assumes "users_json w = Document (JObject kvs)" and "map_of kvs ''users'' = Some x"
  shows "load_register w = (Inr (JObject kvs), w)"
  using assms by (simp add: load_register_file isMember_def and_then_def)

lemma load_authenticate_written:
  assumes "users_json w = Document (JObject kvs)" and "map_of kvs ''users'' = Some x"
  shows "load_authenticate w = (Inr (JObject kvs), w)"
  using assms by (simp add: load_authenticate_file isMember_def and_then_def)

text \<open>A store that Register has loaded and whose \<^verbatim>\<open>users\<close> is an array is an object
  holding that array.\<close>

lemma loaded_users_array:
  assumes "load_register w = (Inr db, w0)" and "index_const ''users'' db = Inr (JArray xs)"
  shows "w0 = w \<and> (\<exists>kvs. db = JObject kvs \<and> map_of kvs ''users'' = Some (JArray xs))"
  using assms
  by (cases db) (auto simp add: load_register_file index_const_def and_then_def
      split: store_file.splits sum.splits bool.splits option.splits)

lemma append_user_object:
  assumes "map_of kvs ''users'' = Some (JArray xs)"
  shows "append_user u p r (JObject kvs) =
           Inr (JObject (put ''users'' (JArray (xs @ [record_json u (hash_pass p) r])) kvs))"
  using assms by (simp add: append_user_def new_user_eq and_then_def)

lemma register_main_loaded:
  assumes "load_register w = (Inr db, w0)"
      and "register_input w = ((u, p, r), w3)"
      and "append_user u p r db = Inr db'"
  shows "register_main w = (Returned 0, write_json db' w3)"
proof -
  have "w0 = w" using assms(1) by (simp add: load_register_file)
  then show ?thesis using assms by (simp add: register_main_def)
qed

text \<open>What a run of Register does on a store whose \<^verbatim>\<open>users\<close> is an array.\<close>

lemma register_main_array:
  assumes "load_register w = (Inr db, w0)"
      and "index_const ''users'' db = Inr (JArray xs)"
      and "fst (register_input w) = (u, p, r)"
  shows "\<exists>kvs w3. db = JObject kvs \<and> map_of kvs ''users'' = Some (JArray xs) \<and>
           users_json w3 = users_json w \<and> writable w3 = writable w \<and>
           register_main w =
             (Returned 0,
              write_json (JObject (put ''users''
                (JArray (xs @ [record_json u (hash_pass p) r])) kvs)) w3)"
proof -
  from loaded_users_array [OF assms(1,2)] obtain kvs
    where db: "db = JObject kvs" and us: "map_of kvs ''users'' = Some (JArray xs)"
    by blast
  obtain w3 where inp: "register_input w = ((u, p, r), w3)"
    using assms(3) by (cases "register_input w") simp
  have "users_json w3 = users_json w" "writable w3 = writable w"
    using register_input_keeps [of w] inp by simp_all
  moreover have "register_main w =
      (Returned 0,
       write_json (JObject (put ''users''
         (JArray (xs @ [record_json u (hash_pass p) r])) kvs)) w3)"
    using register_main_loaded [OF assms(1) inp] append_user_object [OF us] db by simp
  ultimately show ?thesis using db us by blast
qed

text \<open>The loop passes over records of another name and stops at the first of the name
  asked for.\<close>

lemma scan_skips:
  assumes "\<forall>y\<in>set pre. \<exists>n. string_field ''username'' y = Inr n \<and> n \<noteq> u"
  shows "scan u p (pre @ rest) w = scan u p rest w"
  using assms by (induction pre) auto

lemma scan_first_match:
  assumes "\<forall>y\<in>set pre. \<exists>n. string_field ''username'' y = Inr n \<and> n \<noteq> u"
      and "string_field ''username'' x = Inr u"
      and "string_field ''password_hash'' x = Inr h"
  shows "scan u p (pre @ x # post) w =
           (if h = hash_pass p then
              (case string_field ''role'' x of
                 Inl e \<Rightarrow> (Aborted e, w)
               | Inr role \<Rightarrow> (Returned 0, cout (''Logged in as '' @ u @ '' ('' @ role @ '')'') w))
            else (Returned 1, cout ''Incorrect password'' w))"
  using assms by (simp add: scan_skips)

lemma authenticate_main_loaded:
  assumes "load_authenticate w = (Inr db, w0)"
      and "index_const ''users'' db = Inr us"
      and "authenticate_input w = ((u, p), w2)"
  shows "authenticate_main w = scan u p (elements us) w2"
proof -
  have "w0 = w" using assms(1)
    by (simp add: load_authenticate_file)
  then show ?thesis using assms by (simp add: authenticate_main_def)
qed

text \<open>Line 18 on any store: when the append throws nothing, \<^verbatim>\<open>users\<close> is an array that
  ends with the new record.\<close>

lemma append_user_result:
  assumes "append_user u p r db = Inr db'"
  shows "\<exists>xs. index_const ''users'' db' = Inr (JArray (xs @ [record_json u (hash_pass p) r]))"
proof (cases db)
  case JNull
  then show ?thesis using assms
    by (auto simp add: append_user_def new_user_eq and_then_def index_const_def)
next
  case (JObject kvs)
  show ?thesis
  proof (cases "map_of kvs ''users''")
    case None
    then show ?thesis using assms JObject
      by (auto simp add: append_user_def new_user_eq and_then_def index_const_def map_of_put)
  next
    case (Some us)
    then show ?thesis using assms JObject
      by (cases us)
        (auto simp add: append_user_def new_user_eq and_then_def index_const_def map_of_put)
  qed
qed (use assms in \<open>simp_all add: append_user_def new_user_eq and_then_def\<close>)

text \<open>A run of Register that returns 0 has loaded the store, appended the record and handed
  the result to the write.\<close>

lemma register_main_returned:
  assumes "register_input w = ((u, p, r), v)" and "fst (register_main w) = Returned 0"
  shows "\<exists>db db'. load_register w = (Inr db, w) \<and> append_user u p r db = Inr db' \<and>
           register_main w = (Returned 0, write_json db' v)"
proof -
  have l: "load_register w = (fst (load_register w), w)"
    by (simp add: load_register_file)
  show ?thesis
    using assms
    by (subst (asm) register_main_def, subst (asm) l, subst register_main_def, subst (2) l,
        subst l)
      (auto split: sum.splits)
qed

section \<open>The hash function\<close>

text \<open>
  C7. \<^verbatim>\<open>hash_pass\<close> puts the prefix \<^verbatim>\<open>HASH_\<close> before the password and is injective.
  A run of Register that returns 0 on a file that can be written leaves a store whose last
  user has the username read from the input and, under \<^verbatim>\<open>password_hash\<close>, \<open>hash_pass\<close> of
  the password read. A run of Authenticate whose first record of the username given holds
  the hash \<open>h\<close> returns 0 exactly when \<open>h\<close> is \<open>hash_pass\<close> of the password given.
\<close>

theorem hash_pass_prefix_injective_used:
  "hash_pass p = ''HASH_'' @ p \<and>
   (hash_pass p1 = hash_pass p2) = (p1 = p2) \<and>
   (fst (register_input w) = (u, q, r) \<and> fst (register_main w) = Returned 0 \<and> writable w \<longrightarrow>
      (\<exists>db' xs x. users_json (snd (register_main w)) = Document db' \<and>
         index_const ''users'' db' = Inr (JArray (xs @ [x])) \<and>
         string_field ''username'' x = Inr u \<and>
         string_field ''password_hash'' x = Inr (hash_pass q))) \<and>
   (load_authenticate v = (Inr db, v0) \<and> index_const ''users'' db = Inr us \<and>
    authenticate_input v = ((n, pw), v2) \<and> elements us = pre @ y # post \<and>
    (\<forall>z\<in>set pre. \<exists>m. string_field ''username'' z = Inr m \<and> m \<noteq> n) \<and>
    string_field ''username'' y = Inr n \<and> string_field ''password_hash'' y = Inr h \<and>
    string_field ''role'' y = Inr role \<longrightarrow>
    (fst (authenticate_main v) = Returned 0) = (h = hash_pass pw))"
proof (intro conjI impI)
  show "hash_pass p = ''HASH_'' @ p"
    by (simp add: hash_pass_def)
  show "(hash_pass p1 = hash_pass p2) = (p1 = p2)"
    by (simp add: hash_pass_def)
next
  assume a: "fst (register_input w) = (u, q, r) \<and> fst (register_main w) = Returned 0 \<and>
             writable w"
  then obtain w3 where inp: "register_input w = ((u, q, r), w3)"
    by (cases "register_input w") simp
  from register_main_returned [OF inp] a obtain db db'
    where app: "append_user u q r db = Inr db'"
      and run: "register_main w = (Returned 0, write_json db' w3)"
    by blast
  have "writable w3"
    using register_input_keeps(2) [of w] inp a by simp
  then have "users_json (snd (register_main w)) = Document db'"
    using run by (simp add: write_json_def)
  moreover from append_user_result [OF app] obtain xs
    where "index_const ''users'' db' = Inr (JArray (xs @ [record_json u (hash_pass q) r]))"
    by blast
  ultimately show "\<exists>db' xs x. users_json (snd (register_main w)) = Document db' \<and>
         index_const ''users'' db' = Inr (JArray (xs @ [x])) \<and>
         string_field ''username'' x = Inr u \<and>
         string_field ''password_hash'' x = Inr (hash_pass q)"
    using record_json_fields(1,2) by blast
next
  assume a: "load_authenticate v = (Inr db, v0) \<and> index_const ''users'' db = Inr us \<and>
    authenticate_input v = ((n, pw), v2) \<and> elements us = pre @ y # post \<and>
    (\<forall>z\<in>set pre. \<exists>m. string_field ''username'' z = Inr m \<and> m \<noteq> n) \<and>
    string_field ''username'' y = Inr n \<and> string_field ''password_hash'' y = Inr h \<and>
    string_field ''role'' y = Inr role"
  then have "authenticate_main v = scan n pw (pre @ y # post) v2"
    using authenticate_main_loaded [of v db v0 us n pw v2] by simp
  moreover have "scan n pw (pre @ y # post) v2 =
      (if h = hash_pass pw
       then (Returned 0, cout (''Logged in as '' @ n @ '' ('' @ role @ '')'') v2)
       else (Returned 1, cout ''Incorrect password'' v2))"
    using a scan_first_match [of pre n y h pw post v2] by simp
  ultimately show "(fst (authenticate_main v) = Returned 0) = (h = hash_pass pw)"
    by simp
qed

theorem hash_pass_prefix_injective_used_witness:
  "(\<exists>db' xs x.
      users_json (snd (register_main (process (Document (store_json [])) ''alice secret admin'')))
        = Document db' \<and>
      index_const ''users'' db' = Inr (JArray (xs @ [x])) \<and>
      string_field ''username'' x = Inr ''alice'' \<and>
      string_field ''password_hash'' x = Inr ''HASH_secret'') \<and>
   fst (authenticate_main
          (process (Document (store_json [record_json ''alice'' ''HASH_secret'' ''admin'']))
             ''alice secret'')) = Returned 0 \<and>
   fst (authenticate_main
          (process (Document (store_json [record_json ''alice'' ''HASH_secret'' ''admin'']))
             ''alice guess'')) \<noteq> Returned 0"
proof -
  let ?x = "record_json ''alice'' ''HASH_secret'' ''admin''"
  let ?w = "process (Document (store_json [])) ''alice secret admin''"
  let ?v = "\<lambda>s. process (Document (store_json [?x])) s"
  have r: "fst (register_input ?w) = (''alice'', ''secret'', ''admin'') \<and>
           fst (register_main ?w) = Returned 0 \<and> writable ?w"
    by (simp add: run_defs process_def store_json_def record_json_def)
  have l: "load_authenticate (?v s) = (Inr (store_json [?x]), ?v s)" for s
    by (simp add: run_defs process_def store_json_def record_json_def)
  have i: "index_const ''users'' (store_json [?x]) = Inr (JArray [?x])"
    by (simp add: run_defs store_json_def)
  have c1: "authenticate_input (?v ''alice secret'') = ((''alice'', ''secret''), ?v [])"
    and c2: "authenticate_input (?v ''alice guess'') = ((''alice'', ''guess''), ?v [])"
    by (simp_all add: authenticate_input_def cin_string_def isspace_def process_def Let_def)
  have e: "elements (JArray [?x]) = [] @ ?x # [] \<and>
           (\<forall>z\<in>set []. \<exists>m. string_field ''username'' z = Inr m \<and> m \<noteq> ''alice'') \<and>
           string_field ''username'' ?x = Inr ''alice'' \<and>
           string_field ''password_hash'' ?x = Inr ''HASH_secret'' \<and>
           string_field ''role'' ?x = Inr ''admin''"
    by (simp add: record_json_fields)
  note t1 = hash_pass_prefix_injective_used
      [where w = ?w and u = "''alice''" and q = "''secret''" and r = "''admin''"
        and v = "?v ''alice secret''" and db = "store_json [?x]" and ?v0.0 = "?v ''alice secret''"
        and us = "JArray [?x]" and n = "''alice''" and pw = "''secret''" and ?v2.0 = "?v []"
        and pre = "[]" and y = ?x and post = "[]" and h = "''HASH_secret''"
        and role = "''admin''"]
  note t2 = hash_pass_prefix_injective_used
      [where v = "?v ''alice guess''" and db = "store_json [?x]" and ?v0.0 = "?v ''alice guess''"
        and us = "JArray [?x]" and n = "''alice''" and pw = "''guess''" and ?v2.0 = "?v []"
        and pre = "[]" and y = ?x and post = "[]" and h = "''HASH_secret''"
        and role = "''admin''"]
  have 1: "\<exists>db' xs x. users_json (snd (register_main ?w)) = Document db' \<and>
      index_const ''users'' db' = Inr (JArray (xs @ [x])) \<and>
      string_field ''username'' x = Inr ''alice'' \<and>
      string_field ''password_hash'' x = Inr ''HASH_secret''"
    using t1 r by (simp add: hash_pass_def)
  have 2: "fst (authenticate_main (?v ''alice secret'')) = Returned 0"
    using t1 l i c1 e by (simp add: hash_pass_def)
  have 3: "fst (authenticate_main (?v ''alice guess'')) \<noteq> Returned 0"
    using t2 l i c2 e by (simp add: hash_pass_def)
  show ?thesis using 1 2 3 by blast
qed

section \<open>Register keeps the store and adds one record\<close>

text \<open>
  C8, as amended. When the store that Register loads has the array \<open>xs\<close> as its \<^verbatim>\<open>users\<close>
  and the file can be written, the run returns 0, and loading the file again gives a store
  whose \<^verbatim>\<open>users\<close> is \<open>xs\<close> followed by the one record of the username, \<open>hash_pass\<close> of the
  password and the role read from the input. Every other member of the document is as before.
\<close>

theorem register_appends_one_record:
  assumes "load_register w = (Inr db, w0)"
      and "index_const ''users'' db = Inr (JArray xs)"
      and "fst (register_input w) = (u, p, r)"
      and "writable w"
  shows "\<exists>w' db'. register_main w = (Returned 0, w') \<and>
           load_register w' = (Inr db', w') \<and>
           index_const ''users'' db' = Inr (JArray (xs @ [record_json u (hash_pass p) r])) \<and>
           (\<forall>k. k \<noteq> ''users'' \<longrightarrow> find_member k db' = find_member k db)"
proof -
  let ?us = "JArray (xs @ [record_json u (hash_pass p) r])"
  from register_main_array [OF assms(1,2,3)] obtain kvs w3
    where db: "db = JObject kvs"
      and w3: "users_json w3 = users_json w" "writable w3 = writable w"
      and run: "register_main w = (Returned 0, write_json (JObject (put ''users'' ?us kvs)) w3)"
    by blast
  let ?w' = "write_json (JObject (put ''users'' ?us kvs)) w3"
  have written: "users_json ?w' = Document (JObject (put ''users'' ?us kvs))"
    using assms(4) w3 by (simp add: write_json_def)
  have load: "load_register ?w' = (Inr (JObject (put ''users'' ?us kvs)), ?w')"
    by (rule load_register_written [OF written]) (simp add: map_of_put)
  have idx: "index_const ''users'' (JObject (put ''users'' ?us kvs)) = Inr ?us"
    by (simp add: index_const_def and_then_def map_of_put)
  have frame: "\<forall>k. k \<noteq> ''users'' \<longrightarrow>
      find_member k (JObject (put ''users'' ?us kvs)) = find_member k db"
    by (simp add: db map_of_put)
  show ?thesis using run load idx frame by blast
qed

theorem register_appends_one_record_witness:
  "load_register (process (Document (store_json [record_json ''bob'' ''HASH_pw1'' ''user'']))
       ''alice secret admin'')
     = (Inr (store_json [record_json ''bob'' ''HASH_pw1'' ''user'']),
        process (Document (store_json [record_json ''bob'' ''HASH_pw1'' ''user'']))
          ''alice secret admin'') \<and>
   index_const ''users'' (store_json [record_json ''bob'' ''HASH_pw1'' ''user''])
     = Inr (JArray [record_json ''bob'' ''HASH_pw1'' ''user'']) \<and>
   fst (register_input
         (process (Document (store_json [record_json ''bob'' ''HASH_pw1'' ''user'']))
            ''alice secret admin'')) = (''alice'', ''secret'', ''admin'') \<and>
   writable (process (Document (store_json [record_json ''bob'' ''HASH_pw1'' ''user'']))
      ''alice secret admin'') \<and>
   (\<exists>w' db'.
      register_main (process (Document (store_json [record_json ''bob'' ''HASH_pw1'' ''user'']))
        ''alice secret admin'') = (Returned 0, w') \<and>
      load_register w' = (Inr db', w') \<and>
      index_const ''users'' db'
        = Inr (JArray [record_json ''bob'' ''HASH_pw1'' ''user'',
                       record_json ''alice'' ''HASH_secret'' ''admin'']))"
proof -
  let ?d = "store_json [record_json ''bob'' ''HASH_pw1'' ''user'']"
  let ?w = "process (Document ?d) ''alice secret admin''"
  have a: "load_register ?w = (Inr ?d, ?w)"
    and b: "index_const ''users'' ?d = Inr (JArray [record_json ''bob'' ''HASH_pw1'' ''user''])"
    and c: "fst (register_input ?w) = (''alice'', ''secret'', ''admin'')"
    and d: "writable ?w"
    by (simp_all add: run_defs process_def store_json_def record_json_def)
  from register_appends_one_record [OF a b c d] show ?thesis
    using a b c d by (auto simp add: hash_pass_def)
qed

text \<open>
  The claim as first stated, for every prior store and every registration, fails when the
  file cannot be opened for writing: Register returns 0, and loading the file again gives
  the store as it was, without the new record.
\<close>

theorem register_appends_one_record_counterexample:
  "register_main
     \<lparr>users_json = Document (store_json [record_json ''bob'' ''HASH_pw1'' ''user'']),
      writable = False, stdin = ''alice secret admin'', stdout = []\<rparr>
     = (Returned 0,
        \<lparr>users_json = Document (store_json [record_json ''bob'' ''HASH_pw1'' ''user'']),
         writable = False, stdin = [], stdout = []\<rparr>) \<and>
   load_register
     \<lparr>users_json = Document (store_json [record_json ''bob'' ''HASH_pw1'' ''user'']),
      writable = False, stdin = [], stdout = []\<rparr>
     = (Inr (store_json [record_json ''bob'' ''HASH_pw1'' ''user'']),
        \<lparr>users_json = Document (store_json [record_json ''bob'' ''HASH_pw1'' ''user'']),
         writable = False, stdin = [], stdout = []\<rparr>)"
  by (simp add: run_defs store_json_def record_json_def)

section \<open>Register, then Authenticate\<close>

text \<open>
  C1, as amended. When the store that Register loads has the array \<open>xs\<close> as its \<^verbatim>\<open>users\<close>,
  no record of \<open>xs\<close> has the username being registered, and the file can be written, then
  Register returns 0 and a later Authenticate on the file it left, given the same username
  and password, prints the login message with the registered role and returns 0.
\<close>

theorem register_then_authenticate_fresh_name:
  assumes "load_register w = (Inr db, w0)"
      and "index_const ''users'' db = Inr (JArray xs)"
      and "fst (register_input w) = (u, p, r)"
      and "writable w"
      and "\<forall>y\<in>set xs. \<exists>n. string_field ''username'' y = Inr n \<and> n \<noteq> u"
      and "users_json w2 = users_json (snd (register_main w))"
      and "authenticate_input w2 = ((u, p), w3)"
  shows "fst (register_main w) = Returned 0 \<and>
         authenticate_main w2 =
           (Returned 0, cout (''Logged in as '' @ u @ '' ('' @ r @ '')'') w3)"
proof -
  let ?new = "record_json u (hash_pass p) r"
  from register_main_array [OF assms(1,2,3)] obtain kvs v
    where v: "users_json v = users_json w" "writable v = writable w"
      and run: "register_main w =
                  (Returned 0, write_json (JObject (put ''users'' (JArray (xs @ [?new])) kvs)) v)"
    by blast
  let ?db' = "JObject (put ''users'' (JArray (xs @ [?new])) kvs)"
  have "users_json w2 = Document ?db'"
    using assms(4,6) v run by (simp add: write_json_def)
  then have load: "load_authenticate w2 = (Inr ?db', w2)"
    by (rule load_authenticate_written) (simp add: map_of_put)
  have idx: "index_const ''users'' ?db' = Inr (JArray (xs @ [?new]))"
    by (simp add: index_const_def and_then_def map_of_put)
  have "authenticate_main w2 = scan u p (xs @ ?new # []) w3"
    using authenticate_main_loaded [OF load idx assms(7)] by simp
  also have "\<dots> = (Returned 0, cout (''Logged in as '' @ u @ '' ('' @ r @ '')'') w3)"
  proof -
    have f: "string_field ''username'' ?new = Inr u"
      "string_field ''password_hash'' ?new = Inr (hash_pass p)"
      by (simp_all add: record_json_fields)
    show ?thesis
      using scan_first_match [OF assms(5) f, of p "[]" w3] by (simp add: record_json_fields)
  qed
  finally show ?thesis using run by simp
qed

theorem register_then_authenticate_fresh_name_witness:
  "fst (register_main (process (Document (store_json [])) ''alice secret admin''))
     = Returned 0 \<and>
   authenticate_main
     (next_process (snd (register_main (process (Document (store_json []))
        ''alice secret admin''))) ''alice secret'')
     = (Returned 0,
        cout ''Logged in as alice (admin)''
          (next_process (snd (register_main (process (Document (store_json []))
             ''alice secret admin''))) []))"
proof -
  let ?w = "process (Document (store_json [])) ''alice secret admin''"
  let ?w2 = "next_process (snd (register_main ?w)) ''alice secret''"
  let ?w3 = "next_process (snd (register_main ?w)) []"
  have a: "load_register ?w = (Inr (store_json []), ?w)"
    and b: "index_const ''users'' (store_json []) = Inr (JArray [])"
    and c: "fst (register_input ?w) = (''alice'', ''secret'', ''admin'')"
    and d: "writable ?w"
    and e: "\<forall>y\<in>set []. \<exists>n. string_field ''username'' y = Inr n \<and> n \<noteq> ''alice''"
    and f: "users_json ?w2 = users_json (snd (register_main ?w))"
    by (simp_all add: run_defs process_def store_json_def record_json_def next_process_def)
  have g: "authenticate_input ?w2 = ((''alice'', ''secret''), ?w3)"
    by (simp add: authenticate_input_def cin_string_def isspace_def next_process_def)
  from register_then_authenticate_fresh_name [OF a b c d e f g] show ?thesis
    by simp
qed

text \<open>
  The claim as first stated, for every prior store, fails on a store that already holds the
  username with another password: Register returns 0, and Authenticate stops at the older
  record and reports an incorrect password.
\<close>

theorem register_then_authenticate_counterexample:
  "fst (register_main
          (process (Document (store_json [record_json ''alice'' ''HASH_other'' ''user'']))
             ''alice secret admin'')) = Returned 0 \<and>
   authenticate_main
     (next_process
        (snd (register_main
          (process (Document (store_json [record_json ''alice'' ''HASH_other'' ''user'']))
             ''alice secret admin'')))
        ''alice secret'')
     = (Returned 1,
        \<lparr>users_json = Document (store_json [record_json ''alice'' ''HASH_other'' ''user'',
                                             record_json ''alice'' ''HASH_secret'' ''admin'']),
         writable = True, stdin = [], stdout = ''Incorrect password''\<rparr>)"
  by (simp add: run_defs process_def store_json_def record_json_def next_process_def)

section \<open>Authenticate: the first record of the name decides\<close>

text \<open>
  C2. Let the users that Authenticate loads be \<open>pre @ x # post\<close>, where no record of \<open>pre\<close>
  has the username given and \<open>x\<close> has it. Then the stored hash of \<open>x\<close> alone decides: when it
  differs from \<open>hash_pass\<close> of the password given, the run prints the incorrect-password
  message and returns 1; when it is equal, the run logs in with the role of \<open>x\<close> and returns
  0. Nothing is asked of \<open>post\<close>, whose records are never looked at.
\<close>

theorem first_match_decides:
  assumes "load_authenticate w = (Inr db, w0)"
      and "index_const ''users'' db = Inr us"
      and "authenticate_input w = ((u, p), w2)"
      and "elements us = pre @ x # post"
      and "\<forall>y\<in>set pre. \<exists>n. string_field ''username'' y = Inr n \<and> n \<noteq> u"
      and "string_field ''username'' x = Inr u"
      and "string_field ''password_hash'' x = Inr h"
  shows "(h \<noteq> hash_pass p \<longrightarrow>
           authenticate_main w = (Returned 1, cout ''Incorrect password'' w2)) \<and>
         (h = hash_pass p \<longrightarrow> string_field ''role'' x = Inr role \<longrightarrow>
           authenticate_main w =
             (Returned 0, cout (''Logged in as '' @ u @ '' ('' @ role @ '')'') w2))"
  using authenticate_main_loaded [OF assms(1,2,3)] scan_first_match [OF assms(5,6,7)] assms(4)
  by simp

theorem first_match_decides_witness:
  "authenticate_main (process (Document dup_store) ''dup two'')
     = (Returned 1, cout ''Incorrect password'' (process (Document dup_store) [])) \<and>
   authenticate_main (process (Document dup_store) ''dup one'')
     = (Returned 0, cout ''Logged in as dup (first)'' (process (Document dup_store) []))"
proof -
  let ?bob = "record_json ''bob'' ''HASH_pw1'' ''user''"
  let ?x = "record_json ''dup'' ''HASH_one'' ''first''"
  let ?y = "record_json ''dup'' ''HASH_two'' ''second''"
  let ?w = "\<lambda>s. process (Document dup_store) s"
  have a: "load_authenticate (?w s) = (Inr dup_store, ?w s)" for s
    by (simp add: run_defs process_def store_json_def record_json_def dup_store_def)
  have b: "index_const ''users'' dup_store = Inr (JArray [?bob, ?x, ?y])"
    by (simp add: run_defs process_def store_json_def record_json_def dup_store_def)
  have c2: "authenticate_input (?w ''dup two'') = ((''dup'', ''two''), ?w [])"
    and c1: "authenticate_input (?w ''dup one'') = ((''dup'', ''one''), ?w [])"
    by (simp_all add: authenticate_input_def cin_string_def isspace_def process_def)
  have d: "elements (JArray [?bob, ?x, ?y]) = [?bob] @ ?x # [?y]"
    by simp
  have e: "\<forall>y\<in>set [?bob]. \<exists>n. string_field ''username'' y = Inr n \<and> n \<noteq> ''dup''"
    by (simp add: record_json_fields)
  have f: "string_field ''username'' ?x = Inr ''dup''"
    and g: "string_field ''password_hash'' ?x = Inr ''HASH_one''"
    and h: "string_field ''role'' ?x = Inr ''first''"
    by (simp_all add: record_json_fields)
  show ?thesis
    using first_match_decides [OF a b c2 d e f g, of "''first''"]
      first_match_decides [OF a b c1 d e f g, of "''first''"] h
    by (simp add: hash_pass_def)
qed

section \<open>Authenticate: a name that no record has\<close>

text \<open>
  C3, as amended. On a store that Authenticate has loaded, that is, on a document that has
  the member \<^verbatim>\<open>users\<close>: when no record has the username given, the run goes through all
  the users, prints the user-not-found message and returns 1 (so it does on an empty array).
  When the first record of that name holds another hash, the run prints the
  incorrect-password message and returns 1, which is not the outcome for a missing user.
\<close>

theorem unknown_user_not_found:
  assumes "load_authenticate w = (Inr db, w0)"
      and "index_const ''users'' db = Inr us"
      and "authenticate_input w = ((u, p), w2)"
  shows "((\<forall>y\<in>set (elements us). \<exists>n. string_field ''username'' y = Inr n \<and> n \<noteq> u) \<longrightarrow>
            authenticate_main w = (Returned 1, cout ''User not found'' w2)) \<and>
         (\<forall>pre x post h.
            elements us = pre @ x # post \<and>
            (\<forall>y\<in>set pre. \<exists>n. string_field ''username'' y = Inr n \<and> n \<noteq> u) \<and>
            string_field ''username'' x = Inr u \<and>
            string_field ''password_hash'' x = Inr h \<and> h \<noteq> hash_pass p \<longrightarrow>
            authenticate_main w = (Returned 1, cout ''Incorrect password'' w2) \<and>
            authenticate_main w \<noteq> (Returned 1, cout ''User not found'' w2))"
proof (intro conjI impI allI)
  assume "\<forall>y\<in>set (elements us). \<exists>n. string_field ''username'' y = Inr n \<and> n \<noteq> u"
  from scan_skips [OF this, of p "[]" w2]
  show "authenticate_main w = (Returned 1, cout ''User not found'' w2)"
    using authenticate_main_loaded [OF assms] by simp
next
  fix pre x post h
  assume a: "elements us = pre @ x # post \<and>
            (\<forall>y\<in>set pre. \<exists>n. string_field ''username'' y = Inr n \<and> n \<noteq> u) \<and>
            string_field ''username'' x = Inr u \<and>
            string_field ''password_hash'' x = Inr h \<and> h \<noteq> hash_pass p"
  then have "scan u p (pre @ x # post) w2 = (Returned 1, cout ''Incorrect password'' w2)"
    using scan_first_match [of pre u x h p post w2] by simp
  then show "authenticate_main w = (Returned 1, cout ''Incorrect password'' w2)"
    using authenticate_main_loaded [OF assms] a by simp
  then show "authenticate_main w \<noteq> (Returned 1, cout ''User not found'' w2)"
    by (simp add: cout_inject)
qed

theorem unknown_user_not_found_witness:
  "authenticate_main (process (Document (store_json [])) ''carol x'')
     = (Returned 1, cout ''User not found'' (process (Document (store_json [])) [])) \<and>
   authenticate_main
       (process (Document (store_json [record_json ''bob'' ''HASH_pw1'' ''user''])) ''bob pw2'')
     = (Returned 1,
        cout ''Incorrect password''
          (process (Document (store_json [record_json ''bob'' ''HASH_pw1'' ''user''])) []))"
proof -
  let ?bob = "record_json ''bob'' ''HASH_pw1'' ''user''"
  let ?w = "process (Document (store_json [])) ''carol x''"
  let ?v = "process (Document (store_json [?bob])) ''bob pw2''"
  have a: "load_authenticate ?w = (Inr (store_json []), ?w)"
    and b: "index_const ''users'' (store_json []) = Inr (JArray [])"
    and a': "load_authenticate ?v = (Inr (store_json [?bob]), ?v)"
    and b': "index_const ''users'' (store_json [?bob]) = Inr (JArray [?bob])"
    by (simp_all add: run_defs process_def store_json_def record_json_def)
  have c: "authenticate_input ?w = ((''carol'', ''x''), process (Document (store_json [])) [])"
    and c': "authenticate_input ?v
               = ((''bob'', ''pw2''), process (Document (store_json [?bob])) [])"
    by (simp_all add: authenticate_input_def cin_string_def isspace_def process_def)
  have d: "\<forall>y\<in>set (elements (JArray [])).
             \<exists>n. string_field ''username'' y = Inr n \<and> n \<noteq> ''carol''"
    by simp
  have e: "elements (JArray [?bob]) = [] @ ?bob # [] \<and>
           (\<forall>y\<in>set []. \<exists>n. string_field ''username'' y = Inr n \<and> n \<noteq> ''bob'') \<and>
           string_field ''username'' ?bob = Inr ''bob'' \<and>
           string_field ''password_hash'' ?bob = Inr ''HASH_pw1'' \<and>
           ''HASH_pw1'' \<noteq> hash_pass ''pw2''"
    by (simp add: record_json_fields hash_pass_def)
  from unknown_user_not_found [OF a b c] d
  have 1: "authenticate_main ?w
             = (Returned 1, cout ''User not found'' (process (Document (store_json [])) []))"
    by blast
  from unknown_user_not_found [OF a' b' c'] e
  have 2: "authenticate_main ?v
             = (Returned 1, cout ''Incorrect password'' (process (Document (store_json [?bob])) []))"
    by blast
  show ?thesis using 1 2 by simp
qed

text \<open>
  The claim as first stated, for every store, fails on a document without \<^verbatim>\<open>users\<close>,
  which the specification counts as an empty store: on \<^verbatim>\<open>{}\<close> and on \<^verbatim>\<open>null\<close> the
  run returns 1 with the input unread and no message printed.
\<close>

theorem unknown_user_counterexample:
  "authenticate_main (process (Document (JObject [])) ''carol x'')
     = (Returned 1,
        \<lparr>users_json = Document (JObject []), writable = True,
         stdin = ''carol x'', stdout = []\<rparr>) \<and>
   authenticate_main (process (Document JNull) ''carol x'')
     = (Returned 1,
        \<lparr>users_json = Document JNull, writable = True, stdin = ''carol x'', stdout = []\<rparr>)"
  by (simp add: run_defs process_def)

section \<open>A store document without \<^verbatim>\<open>users\<close>\<close>

text \<open>
  C5. When the document read is null or an object without \<^verbatim>\<open>users\<close>, so that the test
  of line 12 finds no such member, Authenticate returns 1 and leaves the world as it found
  it: the input has not been read, nothing has been printed, the file is as before.
\<close>

theorem keyless_store_exits_1:
  assumes "users_json w = Document db" and "isMember ''users'' db = Inr False"
  shows "authenticate_main w = (Returned 1, w)"
  using assms by (simp add: authenticate_main_def load_authenticate_file)

theorem keyless_store_exits_1_witness:
  "authenticate_main (process (Document (JObject [(''other'', JInt 1)])) ''carol x'')
     = (Returned 1, process (Document (JObject [(''other'', JInt 1)])) ''carol x'')"
proof -
  let ?w = "process (Document (JObject [(''other'', JInt 1)])) ''carol x''"
  have a: "users_json ?w = Document (JObject [(''other'', JInt 1)])"
    and b: "isMember ''users'' (JObject [(''other'', JInt 1)]) = Inr False"
    by (simp_all add: process_def isMember_def and_then_def)
  from keyless_store_exits_1 [OF a b] show ?thesis .
qed

text \<open>
  C4, as amended. On a document that is null or an object without \<^verbatim>\<open>users\<close>, the loader
  of Register goes on with a store whose \<^verbatim>\<open>users\<close> is the empty array and whose other
  members are those of the document, while the loader of Authenticate ends the process with
  code 1.
\<close>

theorem loaders_on_keyless_store:
  assumes "users_json w = Document db" and "isMember ''users'' db = Inr False"
  shows "\<exists>db'. load_register w = (Inr db', w) \<and>
           index_const ''users'' db' = Inr (JArray []) \<and>
           (\<forall>k. k \<noteq> ''users'' \<longrightarrow> find_member k db' = find_member k db) \<and>
           load_authenticate w = (Inl (Returned 1), w)"
proof -
  from assms(2) consider "db = JNull" | kvs where "db = JObject kvs" "map_of kvs ''users'' = None"
    by (auto simp add: isMember_cases)
  then show ?thesis
  proof cases
    case 1
    then show ?thesis using assms
      by (simp add: load_register_file load_authenticate_file assign_def and_then_def
          index_const_def)
  next
    case 2
    then show ?thesis using assms
      by (simp add: load_register_file load_authenticate_file assign_def and_then_def
          index_const_def map_of_put)
  qed
qed

theorem loaders_on_keyless_store_witness:
  "(\<exists>db'. load_register (process (Document (JObject [(''other'', JInt 1)])) [])
            = (Inr db', process (Document (JObject [(''other'', JInt 1)])) []) \<and>
          index_const ''users'' db' = Inr (JArray []) \<and>
          find_member ''other'' db' = Inr (Some (JInt 1))) \<and>
   load_authenticate (process (Document (JObject [(''other'', JInt 1)])) [])
     = (Inl (Returned 1), process (Document (JObject [(''other'', JInt 1)])) [])"
proof -
  let ?w = "process (Document (JObject [(''other'', JInt 1)])) []"
  have a: "users_json ?w = Document (JObject [(''other'', JInt 1)])"
    and b: "isMember ''users'' (JObject [(''other'', JInt 1)]) = Inr False"
    by (simp_all add: process_def isMember_def and_then_def)
  from loaders_on_keyless_store [OF a b] obtain db'
    where l: "load_register ?w = (Inr db', ?w)"
      and i: "index_const ''users'' db' = Inr (JArray [])"
      and f: "\<forall>k. k \<noteq> ''users'' \<longrightarrow>
                find_member k db' = find_member k (JObject [(''other'', JInt 1)])"
      and la: "load_authenticate ?w = (Inl (Returned 1), ?w)"
    by blast
  from f have "find_member ''other'' db' = Inr (Some (JInt 1))"
    by simp
  then show ?thesis using l i la by blast
qed

text \<open>
  The claim as first stated has both entry points go on with an empty store. Authenticate
  does not: on the document \<^verbatim>\<open>{"other": 1}\<close> it returns 1 with nothing read and nothing
  printed, where on the empty store \<^verbatim>\<open>{"users": []}\<close> it reads the input and reports that
  the user was not found.
\<close>

theorem keyless_store_counterexample:
  "load_authenticate (process (Document (JObject [(''other'', JInt 1)])) ''carol x'')
     = (Inl (Returned 1), process (Document (JObject [(''other'', JInt 1)])) ''carol x'') \<and>
   authenticate_main (process (Document (JObject [(''other'', JInt 1)])) ''carol x'')
     = (Returned 1,
        \<lparr>users_json = Document (JObject [(''other'', JInt 1)]), writable = True,
         stdin = ''carol x'', stdout = []\<rparr>) \<and>
   authenticate_main (process (Document (store_json [])) ''carol x'')
     = (Returned 1,
        \<lparr>users_json = Document (store_json []), writable = True,
         stdin = [], stdout = ''User not found''\<rparr>)"
  by (simp add: run_defs process_def store_json_def record_json_def)

section \<open>Register and a write that fails\<close>

text \<open>
  C6, as amended. Register returns 0 exactly when the store is loaded and the record
  appended without an exception. Whether the file can be written has no part in it: the
  status is the same when the file cannot be opened for writing, and the file is then left
  as it was.
\<close>

theorem register_status_ignores_write:
  assumes "fst (register_input w) = (u, p, r)"
  shows "(fst (register_main w) = Returned 0) =
           (\<exists>db db'. fst (load_register w) = Inr db \<and> append_user u p r db = Inr db') \<and>
         fst (register_main (w\<lparr>writable := False\<rparr>)) = fst (register_main w) \<and>
         (\<not> writable w \<longrightarrow> users_json (snd (register_main w)) = users_json w)"
proof -
  obtain v where inp: "register_input w = ((u, p, r), v)"
    using assms by (cases "register_input w") simp
  have v: "users_json v = users_json w" "writable v = writable w"
    using register_input_keeps [of w] inp by simp_all
  have "fst (register_input (w\<lparr>writable := False\<rparr>)) = (u, p, r)"
    using assms by (simp add: register_input_def cin_string_def Let_def)
  then obtain v' where inp': "register_input (w\<lparr>writable := False\<rparr>) = ((u, p, r), v')"
    by (cases "register_input (w\<lparr>writable := False\<rparr>)") simp
  have l: "load_register w = (fst (load_register w), w)"
    by (simp add: load_register_file)
  have l': "load_register (w\<lparr>writable := False\<rparr>)
              = (fst (load_register w), w\<lparr>writable := False\<rparr>)"
    by (simp add: load_register_file)
  have a: "(fst (register_main w) = Returned 0) =
           (\<exists>db db'. fst (load_register w) = Inr db \<and> append_user u p r db = Inr db')"
    using inp by (subst register_main_def, subst l) (auto split: sum.splits)
  have b: "fst (register_main (w\<lparr>writable := False\<rparr>)) = fst (register_main w)"
    using inp inp'
    by (subst (1 2) register_main_def, subst l, subst l') (auto split: sum.splits)
  have c: "\<not> writable w \<longrightarrow> users_json (snd (register_main w)) = users_json w"
    using inp v
    by (subst register_main_def, subst l) (auto simp add: write_json_def split: sum.splits)
  show ?thesis using a b c by blast
qed

theorem register_status_ignores_write_witness:
  "fst (register_main ((process (Document (store_json [])) ''alice secret admin'')
          \<lparr>writable := False\<rparr>)) = Returned 0 \<and>
   users_json (snd (register_main ((process (Document (store_json [])) ''alice secret admin'')
          \<lparr>writable := False\<rparr>))) = Document (store_json [])"
proof -
  let ?w = "(process (Document (store_json [])) ''alice secret admin'')\<lparr>writable := False\<rparr>"
  have a: "fst (register_input ?w) = (''alice'', ''secret'', ''admin'')"
    by (simp add: run_defs process_def store_json_def record_json_def)
  have b: "fst (load_register ?w) = Inr (store_json [])"
    by (simp add: run_defs process_def store_json_def record_json_def)
  have c: "append_user ''alice'' ''secret'' ''admin'' (store_json [])
             = Inr (store_json [record_json ''alice'' ''HASH_secret'' ''admin''])"
    by (simp add: run_defs process_def store_json_def record_json_def)
  have d: "\<not> writable ?w" "users_json ?w = Document (store_json [])"
    by (simp_all add: process_def)
  from register_status_ignores_write [OF a] b c d show ?thesis
    by auto
qed

text \<open>
  The claim as first stated has a failed write end the run with a non-zero code. It does
  not: with a file that cannot be opened for writing, Register returns 0 and the store is
  as it was.
\<close>

theorem register_write_failure_counterexample:
  "register_main \<lparr>users_json = Document (store_json []), writable = False,
                  stdin = ''alice secret admin'', stdout = []\<rparr>
     = (Returned 0,
        \<lparr>users_json = Document (store_json []), writable = False, stdin = [], stdout = []\<rparr>)"
  by (simp add: run_defs process_def store_json_def record_json_def)

section \<open>Loading reads and does nothing else\<close>

text \<open>
  C9. What either loader yields depends on the store file alone, and loading leaves the
  world as it was. So two loads with no write between them yield equal stores.
\<close>

theorem loader_reads_only:
  assumes "users_json w' = users_json w"
  shows "fst (load_register w') = fst (load_register w) \<and>
         fst (load_authenticate w') = fst (load_authenticate w) \<and>
         load_register (snd (load_register w)) = load_register w \<and>
         load_authenticate (snd (load_authenticate w)) = load_authenticate w"
  using assms by (simp add: load_register_file load_authenticate_file)

theorem loader_reads_only_witness:
  "fst (load_register (process (Document (JObject [(''other'', JInt 1)])) ''a b c''))
     = fst (load_register (process (Document (JObject [(''other'', JInt 1)])) [])) \<and>
   fst (load_authenticate (process (Document (JObject [(''other'', JInt 1)])) ''a b c''))
     = fst (load_authenticate (process (Document (JObject [(''other'', JInt 1)])) [])) \<and>
   fst (load_register (process (Document (JObject [(''other'', JInt 1)])) []))
     = Inr (JObject [(''other'', JInt 1), (''users'', JArray [])])"
proof -
  let ?d = "Document (JObject [(''other'', JInt 1)])"
  have a: "users_json (process ?d ''a b c'') = users_json (process ?d [])"
    by (simp add: process_def)
  have b: "fst (load_register (process ?d []))
             = Inr (JObject [(''other'', JInt 1), (''users'', JArray [])])"
    by (simp add: run_defs process_def store_json_def record_json_def)
  from loader_reads_only [OF a] b show ?thesis
    by simp
qed

section \<open>Stored hashes start with the prefix\<close>

text \<open>
  C10. The record that Register builds has a \<^verbatim>\<open>password_hash\<close> starting with
  \<^verbatim>\<open>HASH_\<close>, whatever the password, the empty one too. When every record of the store
  loaded has such a hash, so has every record of the store loaded after the run.
\<close>

theorem registered_hash_has_prefix:
  "and_then (new_user u p r) (\<lambda>user. Inr (hash_prefixed user)) = Inr True \<and>
   (load_register w = (Inr db, w0) \<and> index_const ''users'' db = Inr (JArray xs) \<and>
    (\<forall>x\<in>set xs. hash_prefixed x) \<longrightarrow>
    (\<exists>db' ys. load_register (snd (register_main w)) = (Inr db', snd (register_main w)) \<and>
       index_const ''users'' db' = Inr (JArray ys) \<and> (\<forall>y\<in>set ys. hash_prefixed y)))"
proof (intro conjI impI)
  show "and_then (new_user u p r) (\<lambda>user. Inr (hash_prefixed user)) = Inr True"
    by (simp add: new_user_eq and_then_def hash_prefixed_def record_json_fields hash_pass_def)
next
  assume a: "load_register w = (Inr db, w0) \<and> index_const ''users'' db = Inr (JArray xs) \<and>
    (\<forall>x\<in>set xs. hash_prefixed x)"
  obtain u' p' r' where inp: "fst (register_input w) = (u', p', r')"
    by (cases "fst (register_input w)") auto
  let ?new = "record_json u' (hash_pass p') r'"
  from a register_main_array [OF _ _ inp, of db w0 xs] obtain kvs v
    where v: "users_json v = users_json w" "writable v = writable w"
      and run: "register_main w =
                  (Returned 0, write_json (JObject (put ''users'' (JArray (xs @ [?new])) kvs)) v)"
    by blast
  let ?db' = "JObject (put ''users'' (JArray (xs @ [?new])) kvs)"
  let ?w' = "snd (register_main w)"
  show "\<exists>db' ys. load_register ?w' = (Inr db', ?w') \<and>
       index_const ''users'' db' = Inr (JArray ys) \<and> (\<forall>y\<in>set ys. hash_prefixed y)"
  proof (cases "writable w")
    case True
    then have "users_json ?w' = Document ?db'"
      using v run by (simp add: write_json_def)
    then have "load_register ?w' = (Inr ?db', ?w')"
      by (rule load_register_written) (simp add: map_of_put)
    moreover have "index_const ''users'' ?db' = Inr (JArray (xs @ [?new]))"
      by (simp add: index_const_def and_then_def map_of_put)
    moreover have "\<forall>y\<in>set (xs @ [?new]). hash_prefixed y"
      using a by (auto simp add: hash_prefixed_def record_json_fields hash_pass_def)
    ultimately show ?thesis by blast
  next
    case False
    then have "users_json ?w' = users_json w"
      using v run by (simp add: write_json_def)
    then have "load_register ?w' = (fst (load_register w), ?w')"
      by (simp add: load_register_file)
    then have "load_register ?w' = (Inr db, ?w')"
      using a by simp
    then show ?thesis using a by blast
  qed
qed

theorem registered_hash_has_prefix_witness:
  "and_then (new_user ''alice'' [] ''admin'') (\<lambda>user. Inr (hash_prefixed user)) = Inr True \<and>
   (\<exists>db' ys.
      fst (load_register (snd (register_main
        (process (Document (store_json [record_json ''bob'' ''HASH_pw1'' ''user''])) ''alice''))))
        = Inr db' \<and>
      index_const ''users'' db' = Inr (JArray ys) \<and> list_all hash_prefixed ys)"
proof -
  let ?bob = "record_json ''bob'' ''HASH_pw1'' ''user''"
  let ?w = "process (Document (store_json [?bob])) ''alice''"
  have a: "load_register ?w = (Inr (store_json [?bob]), ?w) \<and>
           index_const ''users'' (store_json [?bob]) = Inr (JArray [?bob]) \<and>
           (\<forall>x\<in>set [?bob]. hash_prefixed x)"
    by (simp add: run_defs process_def store_json_def record_json_def hash_prefixed_def)
  from registered_hash_has_prefix
         [where u = "''alice''" and p = "[]" and r = "''admin''" and w = ?w
            and db = "store_json [?bob]" and ?w0.0 = ?w and xs = "[?bob]"] a
  show ?thesis
    by (auto simp add: list_all_iff)
qed

end
